theory Spec2Isabelle
  imports Complex_Main "HOL-Library.Word" "HOL-Library.Log_Nat"
begin

section \<open>Python values used by the image compressor\<close>

text \<open>
  The exceptions that \<^verbatim>\<open>compress_image\<close> can raise. The specification's names map to
  them as follows: NotFoundError is \<^verbatim>\<open>FileNotFoundError\<close>; UnsupportedFormatError,
  DecodeError and EncodeError are the three \<^verbatim>\<open>ValueError\<close>s raised with the messages
  "Unsupported file format: ...", "Error opening image: ..." and
  "Error saving compressed image: ...".
\<close>

datatype py_error =
    FileNotFoundError string
  | ValueError string
  | ZeroDivisionError
  | OverflowError
  | IndexError

definition bind_err :: "'e + 'a \<Rightarrow> ('a \<Rightarrow> 'e + 'b) \<Rightarrow> 'e + 'b" where
  "bind_err r f = (case r of Inl e \<Rightarrow> Inl e | Inr x \<Rightarrow> f x)"

subsection \<open>Strings\<close>

text \<open>
  \<^verbatim>\<open>str.lower\<close> on the ASCII letters. Characters outside \<open>A..Z\<close> are left alone; none of
  the extensions compared against contains a letter that a non-ASCII character lowers to.
\<close>

definition ascii_lower :: "char \<Rightarrow> char" where
  "ascii_lower c =
     (let n = (of_char c :: nat) in if 65 \<le> n \<and> n \<le> 90 then char_of (n + 32) else c)"

definition str_lower :: "string \<Rightarrow> string" where
  "str_lower s = map ascii_lower s"

text \<open>\<^verbatim>\<open>sep.join(xs)\<close>.\<close>

fun str_join :: "string \<Rightarrow> string list \<Rightarrow> string" where
  "str_join sep [] = []"
| "str_join sep [x] = x"
| "str_join sep (x # y # ys) = x @ sep @ str_join sep (y # ys)"

text \<open>\<^verbatim>\<open>s.split(c)\<close> for a one-character separator: always at least one piece.\<close>

fun split_on :: "char \<Rightarrow> string \<Rightarrow> string list" where
  "split_on c [] = [[]]"
| "split_on c (x # xs) =
     (if x = c then [] # split_on c xs
      else (case split_on c xs of [] \<Rightarrow> [[x]] | y # ys \<Rightarrow> (x # y) # ys))"

text \<open>\<^verbatim>\<open>s.rfind(c)\<close>: the highest index of \<open>c\<close>, or \<open>-1\<close>.\<close>

fun rfind :: "char \<Rightarrow> string \<Rightarrow> int" where
  "rfind c [] = -1"
| "rfind c (x # xs) =
     (let r = rfind c xs in if 0 \<le> r then r + 1 else if x = c then 0 else -1)"

text \<open>\<^verbatim>\<open>s.endswith(t)\<close>.\<close>

definition endswith :: "string \<Rightarrow> string \<Rightarrow> bool" where
  "endswith s t = (length t \<le> length s \<and> drop (length s - length t) s = t)"

subsection \<open>pathlib (POSIX flavour)\<close>

text \<open>
  A parsed path is its root (\<open>''''\<close>, \<open>''/''\<close> or \<open>''//''\<close>) and its components. The functions
  follow CPython's \<^verbatim>\<open>posixpath.splitroot\<close> and \<^verbatim>\<open>PurePath\<close>: parsing drops empty and
  \<^verbatim>\<open>.\<close> components, \<^verbatim>\<open>suffix\<close> and \<^verbatim>\<open>stem\<close> cut the final component at its last dot
  when that dot is neither its first nor its last character.
\<close>

record pure_path =
  p_root :: string
  p_tail :: "string list"

definition splitroot_root :: "string \<Rightarrow> string" where
  "splitroot_root p =
     (if take 1 p \<noteq> ''/'' then []
      else if take 1 (drop 1 p) \<noteq> ''/'' \<or> take 1 (drop 2 p) = ''/'' then ''/''
      else take 2 p)"

definition PurePath :: "string \<Rightarrow> pure_path" where
  "PurePath s =
     (let r = splitroot_root s; rel = drop (length r) s
      in \<lparr>p_root = r,
          p_tail = filter (\<lambda>x. x \<noteq> [] \<and> x \<noteq> ''.'') (split_on CHR ''/'' rel)\<rparr>)"

definition path_str :: "pure_path \<Rightarrow> string" where
  "path_str p =
     (let s = p_root p @ str_join ''/'' (p_tail p) in if s = [] then ''.'' else s)"

definition path_name :: "pure_path \<Rightarrow> string" where
  "path_name p = (if p_tail p = [] then [] else last (p_tail p))"

definition path_suffix :: "pure_path \<Rightarrow> string" where
  "path_suffix p =
     (let name = path_name p; i = rfind CHR ''.'' name
      in if 0 < i \<and> i < int (length name) - 1 then drop (nat i) name else [])"

definition path_stem :: "pure_path \<Rightarrow> string" where
  "path_stem p =
     (let name = path_name p; i = rfind CHR ''.'' name
      in if 0 < i \<and> i < int (length name) - 1 then take (nat i) name else name)"

definition path_parent :: "pure_path \<Rightarrow> pure_path" where
  "path_parent p = (if p_tail p = [] then p else p\<lparr>p_tail := butlast (p_tail p)\<rparr>)"

text \<open>\<^verbatim>\<open>p / key\<close>: an absolute right operand replaces the left one, otherwise its
  components are appended.\<close>

definition path_truediv :: "pure_path \<Rightarrow> string \<Rightarrow> pure_path" where
  "path_truediv p key =
     (let k = PurePath key
      in if p_root k \<noteq> [] then k else p\<lparr>p_tail := p_tail p @ p_tail k\<rparr>)"

text \<open>\<^verbatim>\<open>output_path\<close> holds either the caller's string or a derived \<^verbatim>\<open>Path\<close>.\<close>

datatype pathlike = PStr string | PPath pure_path

fun Path :: "pathlike \<Rightarrow> pure_path" where
  "Path (PStr s) = PurePath s"
| "Path (PPath p) = p"

fun str :: "pathlike \<Rightarrow> string" where
  "str (PStr s) = s"
| "str (PPath p) = path_str p"

subsection \<open>Floating point\<close>

text \<open>
  Python's \<^verbatim>\<open>float\<close> is IEEE 754 binary64. A finite double is kept as the rational it
  denotes; every operation is the exact result rounded to nearest, ties to even, with
  53 significant bits, subnormals below \<open>2 powi -1022\<close> and overflow to infinity
  (a rounded magnitude \<open>m * 2 powi e\<close> reaches \<open>2 powi 1024\<close> exactly when the bit length of
  \<open>m\<close> plus \<open>e\<close> exceeds 1024).
\<close>

datatype pyfloat = Finite rat | Infinite

definition round_half_even :: "rat \<Rightarrow> int" where
  "round_half_even x =
     (let f = \<lfloor>x\<rfloor>; d = x - of_int f
      in if d < 1 / 2 then f else if 1 / 2 < d then f + 1 else if even f then f else f + 1)"

text \<open>The exponent of the leading binary digit of a nonzero rational.\<close>

definition ilog2 :: "rat \<Rightarrow> int" where
  "ilog2 x =
     (case quotient_of \<bar>x\<bar> of (p, q) \<Rightarrow>
        let e = bitlen p - bitlen q in if 2 powi e \<le> \<bar>x\<bar> then e else e - 1)"

definition round_double :: "rat \<Rightarrow> pyfloat" where
  "round_double x =
     (if x = 0 then Finite 0
      else let e = max (ilog2 x - 52) (- 1074);
               m = round_half_even (x / 2 powi e)
           in if 1024 < bitlen \<bar>m\<bar> + e then Infinite else Finite (of_int m * 2 powi e))"

text \<open>\<^verbatim>\<open>a / b\<close> on two ints: correctly rounded true division.\<close>

definition py_truediv :: "int \<Rightarrow> int \<Rightarrow> py_error + rat" where
  "py_truediv a b =
     (if b = 0 then Inl ZeroDivisionError
      else case round_double (of_int a / of_int b) of
             Infinite \<Rightarrow> Inl OverflowError
           | Finite r \<Rightarrow> Inr r)"

text \<open>\<^verbatim>\<open>n * r\<close> for an int and a float: the int is converted first, then the product is
  rounded; an overflowing product is infinite.\<close>

definition py_float_of_int :: "int \<Rightarrow> py_error + rat" where
  "py_float_of_int n =
     (case round_double (of_int n) of Infinite \<Rightarrow> Inl OverflowError | Finite r \<Rightarrow> Inr r)"

definition py_mul_int_float :: "int \<Rightarrow> rat \<Rightarrow> py_error + pyfloat" where
  "py_mul_int_float n r = bind_err (py_float_of_int n) (\<lambda>f. Inr (round_double (f * r)))"

text \<open>\<^verbatim>\<open>int(x)\<close> on a float truncates toward zero and refuses infinity.\<close>

definition py_int :: "pyfloat \<Rightarrow> py_error + int" where
  "py_int x =
     (case x of
        Infinite \<Rightarrow> Inl OverflowError
      | Finite q \<Rightarrow> Inr (if 0 \<le> q then \<lfloor>q\<rfloor> else \<lceil>q\<rceil>))"

section \<open>The imaging library and the file system\<close>

text \<open>
  Decoding, resampling, blending and encoding belong to the imaging library; they are
  parameters. An image carries its mode, its size and its bands (one list of samples per
  band). The library's structural contract is written out: \<^verbatim>\<open>Image.new\<close> fills every
  band with the colour, \<^verbatim>\<open>split\<close> returns one \<open>L\<close> image per band, \<^verbatim>\<open>paste\<close> with a
  mask blends band by band into the target and keeps the target's mode and size,
  \<^verbatim>\<open>resize\<close> keeps the mode, refuses a side that does not fit a 32-bit integer and a
  side below one, and \<^verbatim>\<open>save\<close> touches only the file that the name it is given
  denotes. Decoding is taken to happen when the file is opened.

  A path name denotes a file, and several names can denote the same file (\<^verbatim>\<open>a.png\<close> and
  \<^verbatim>\<open>./a.png\<close>, an absolute spelling, a link). Which file a name denotes is decided by the
  operating system: it is the parameter \<open>resolve\<close> of the file system, and every read,
  test and write goes through it.
\<close>

datatype fsnode = File "8 word list" | Directory

record filesystem =
  nodes :: "string \<rightharpoonup> fsnode"
  resolve :: "string \<Rightarrow> string"

definition fs_lookup :: "filesystem \<Rightarrow> string \<Rightarrow> fsnode option" where
  "fs_lookup fs p = nodes fs (resolve fs p)"

definition fs_write :: "filesystem \<Rightarrow> string \<Rightarrow> fsnode option \<Rightarrow> filesystem" where
  "fs_write fs p n = fs\<lparr>nodes := (nodes fs)(resolve fs p := n)\<rparr>"

record image =
  im_mode :: string
  im_size :: "nat \<times> nat"
  im_bands :: "8 word list list"

record save_params =
  sp_quality :: "int option"
  sp_optimize :: bool

record pil =
  decode :: "8 word list \<Rightarrow> string + image"
  resample :: "image \<Rightarrow> nat \<times> nat \<Rightarrow> 8 word list list"
  blend :: "8 word \<Rightarrow> 8 word \<Rightarrow> 8 word \<Rightarrow> 8 word"
  save :: "image \<Rightarrow> string option \<Rightarrow> save_params \<Rightarrow> string \<Rightarrow> fsnode option
             \<Rightarrow> string option \<times> fsnode option"

definition os_path_exists :: "filesystem \<Rightarrow> string \<Rightarrow> bool" where
  "os_path_exists fs p = (fs_lookup fs p \<noteq> None)"

text \<open>The messages show the path between single quotes, as the operating system's
  errors do for a plain name.\<close>

definition Image_open :: "pil \<Rightarrow> filesystem \<Rightarrow> string \<Rightarrow> string + image" where
  "Image_open lib fs p =
     (case fs_lookup fs p of
        None \<Rightarrow> Inl (''[Errno 2] No such file or directory: '' @ [CHR 0x27] @ p @ [CHR 0x27])
      | Some Directory \<Rightarrow> Inl (''[Errno 21] Is a directory: '' @ [CHR 0x27] @ p @ [CHR 0x27])
      | Some (File bytes) \<Rightarrow> decode lib bytes)"

definition Image_new :: "string \<Rightarrow> nat \<times> nat \<Rightarrow> 8 word list \<Rightarrow> image" where
  "Image_new m sz colour =
     \<lparr>im_mode = m, im_size = sz,
      im_bands = map (\<lambda>c. replicate (fst sz * snd sz) c) colour\<rparr>"

definition Image_split :: "image \<Rightarrow> image list" where
  "Image_split img =
     map (\<lambda>b. \<lparr>im_mode = ''L'', im_size = im_size img, im_bands = [b]\<rparr>) (im_bands img)"

definition py_index :: "'a list \<Rightarrow> nat \<Rightarrow> py_error + 'a" where
  "py_index xs i = (if i < length xs then Inr (xs ! i) else Inl IndexError)"

definition Image_paste :: "pil \<Rightarrow> image \<Rightarrow> image \<Rightarrow> image \<Rightarrow> image" where
  "Image_paste lib dst src alpha =
     dst\<lparr>im_bands :=
            map2 (\<lambda>d s. map2 (\<lambda>(dv, sv) mv. blend lib dv sv mv) (zip d s)
                           (concat (im_bands alpha)))
                 (im_bands dst) (im_bands src)\<rparr>"

definition Image_resize :: "pil \<Rightarrow> image \<Rightarrow> int \<times> int \<Rightarrow> py_error + image" where
  "Image_resize lib img sz =
     (case sz of (w, h) \<Rightarrow>
        if w < - (2 ^ 31) \<or> 2 ^ 31 \<le> w \<or> h < - (2 ^ 31) \<or> 2 ^ 31 \<le> h then Inl OverflowError
        else if w < 1 \<or> h < 1 then Inl (ValueError ''height and width must be > 0'')
        else Inr (img\<lparr>im_size := (nat w, nat h),
                       im_bands := resample lib img (nat w, nat h)\<rparr>))"

definition Image_save ::
  "pil \<Rightarrow> filesystem \<Rightarrow> image \<Rightarrow> string \<Rightarrow> string option \<Rightarrow> save_params
     \<Rightarrow> string option \<times> filesystem" where
  "Image_save lib fs img name fmt params =
     (case save lib img fmt params name (fs_lookup fs name) of
        (r, n) \<Rightarrow> (r, fs_write fs name n))"

section \<open>\<^verbatim>\<open>image_compressor.compress_image\<close>\<close>

definition supported_formats :: "string list" where
  "supported_formats = [''.png'', ''.jpg'', ''.jpeg'']"

text \<open>\<^verbatim>\<open>int(other * (bound / extent))\<close>, the arithmetic of lines 49-51 and 54-56.\<close>

definition scale_dim :: "int \<Rightarrow> int \<Rightarrow> int \<Rightarrow> py_error + int" where
  "scale_dim other bound extent =
     bind_err (py_truediv bound extent) (\<lambda>ratio.
     bind_err (py_mul_int_float other ratio) py_int)"

text \<open>Lines 45-56: the new dimensions. A bound that is \<^verbatim>\<open>None\<close> or \<open>0\<close> is falsy.\<close>

definition width_bound :: "int option \<Rightarrow> int \<times> int \<Rightarrow> py_error + int \<times> int" where
  "width_bound max_width d =
     (case d of (original_width, original_height) \<Rightarrow>
        (case max_width of
           None \<Rightarrow> Inr (original_width, original_height)
         | Some mw \<Rightarrow>
             if mw \<noteq> 0 \<and> original_width > mw
             then bind_err (scale_dim original_height mw original_width)
                    (\<lambda>new_height. Inr (mw, new_height))
             else Inr (original_width, original_height)))"

definition height_bound :: "int option \<Rightarrow> int \<times> int \<Rightarrow> py_error + int \<times> int" where
  "height_bound max_height d =
     (case d of (new_width, new_height) \<Rightarrow>
        (case max_height of
           None \<Rightarrow> Inr (new_width, new_height)
         | Some mh \<Rightarrow>
             if mh \<noteq> 0 \<and> new_height > mh
             then bind_err (scale_dim new_width mh new_height)
                    (\<lambda>w. Inr (w, mh))
             else Inr (new_width, new_height)))"

definition new_dimensions ::
  "nat \<times> nat \<Rightarrow> int option \<Rightarrow> int option \<Rightarrow> py_error + int \<times> int" where
  "new_dimensions sz max_width max_height =
     bind_err (width_bound max_width (int (fst sz), int (snd sz)))
       (height_bound max_height)"

definition truthy :: "int option \<Rightarrow> bool" where
  "truthy m = (case m of None \<Rightarrow> False | Some n \<Rightarrow> n \<noteq> 0)"

text \<open>Lines 44-59: resize only when a bound is set and the dimensions change.\<close>

definition resize_step :: "pil \<Rightarrow> image \<Rightarrow> int option \<Rightarrow> int option \<Rightarrow> py_error + image" where
  "resize_step lib img max_width max_height =
     (if truthy max_width \<or> truthy max_height
      then bind_err (new_dimensions (im_size img) max_width max_height) (\<lambda>nd.
             if nd \<noteq> (int (fst (im_size img)), int (snd (im_size img)))
             then Image_resize lib img nd
             else Inr img)
      else Inr img)"

text \<open>Lines 62-64: the output path. \<open>compressed_name\<close> is the f-string of line 64.\<close>

definition compressed_name :: "pure_path \<Rightarrow> string" where
  "compressed_name input_file =
     path_stem input_file @ ''_compressed'' @ path_suffix input_file"

definition resolve_output :: "string \<Rightarrow> string option \<Rightarrow> pathlike" where
  "resolve_output input_path output_path =
     (case output_path of
        Some p \<Rightarrow> PStr p
      | None \<Rightarrow>
          let input_file = PurePath input_path
          in PPath (path_truediv (path_parent input_file) (compressed_name input_file)))"

text \<open>Lines 70-74: an RGBA image bound for a JPEG name is pasted onto white.\<close>

definition flatten_step :: "pil \<Rightarrow> image \<Rightarrow> string \<Rightarrow> py_error + image" where
  "flatten_step lib img output_ext =
     (if im_mode img = ''RGBA'' \<and> output_ext \<in> set [''.jpg'', ''.jpeg'']
      then let rgb_img = Image_new ''RGB'' (im_size img) [255, 255, 255]
           in bind_err (py_index (Image_split img) 3)
                (\<lambda>alpha. Inr (Image_paste lib rgb_img img alpha))
      else Inr img)"

text \<open>Lines 77-85: encode by extension, wrap a failure, return the path as a string.\<close>

definition save_step ::
  "pil \<Rightarrow> filesystem \<Rightarrow> image \<Rightarrow> pathlike \<Rightarrow> string \<Rightarrow> int
     \<Rightarrow> (py_error + string) \<times> filesystem" where
  "save_step lib fs img output_path output_ext quality =
     (case (if output_ext = ''.png''
            then Image_save lib fs img (str output_path) (Some ''PNG'')
                   \<lparr>sp_quality = None, sp_optimize = True\<rparr>
            else Image_save lib fs img (str output_path) (Some ''JPEG'')
                   \<lparr>sp_quality = Some quality, sp_optimize = True\<rparr>) of
        (Some e, fs') \<Rightarrow> (Inl (ValueError (''Error saving compressed image: '' @ e)), fs')
      | (None, fs') \<Rightarrow> (Inr (str output_path), fs'))"

definition compress_image ::
  "pil \<Rightarrow> filesystem \<Rightarrow> string \<Rightarrow> string option \<Rightarrow> int \<Rightarrow> int option \<Rightarrow> int option
     \<Rightarrow> (py_error + string) \<times> filesystem" where
  "compress_image lib fs input_path output_path quality max_width max_height =
     (if \<not> os_path_exists fs input_path
      then (Inl (FileNotFoundError (''Input file not found: '' @ input_path)), fs)
      else
        let file_ext = str_lower (path_suffix (PurePath input_path)) in
        if file_ext \<notin> set supported_formats
        then (Inl (ValueError (''Unsupported file format: '' @ file_ext @ ''. Supported: ''
                                 @ str_join '', '' supported_formats)), fs)
        else
          case Image_open lib fs input_path of
            Inl e \<Rightarrow> (Inl (ValueError (''Error opening image: '' @ e)), fs)
          | Inr img0 \<Rightarrow>
              (case resize_step lib img0 max_width max_height of
                 Inl e \<Rightarrow> (Inl e, fs)
               | Inr img1 \<Rightarrow>
                   let out = resolve_output input_path output_path;
                       output_ext = str_lower (path_suffix (Path out))
                   in (case flatten_step lib img1 output_ext of
                         Inl e \<Rightarrow> (Inl e, fs)
                       | Inr img2 \<Rightarrow> save_step lib fs img2 out output_ext quality)))"

section \<open>\<^verbatim>\<open>script.py\<close>: the interactive variant\<close>

text \<open>
  The script prints to standard output and writes files; both are the state. The file
  dialog's answer is the chosen path (empty when cancelled), the quality dialog's answer is
  an integer or \<^verbatim>\<open>None\<close>.
\<close>

record world =
  files :: filesystem
  stdout :: "string list"

definition print :: "world \<Rightarrow> string \<Rightarrow> world" where
  "print w line = w\<lparr>stdout := stdout w @ [line]\<rparr>"

text \<open>The loop of \<^verbatim>\<open>genericpath._splitext\<close> that looks for a character other than a
  dot between the last separator and the last dot.\<close>

function splitext_loop :: "string \<Rightarrow> nat \<Rightarrow> nat \<Rightarrow> bool" where
  "splitext_loop p filenameIndex dotIndex =
     (if filenameIndex < dotIndex
      then (if take 1 (drop filenameIndex p) \<noteq> ''.'' then True
            else splitext_loop p (Suc filenameIndex) dotIndex)
      else False)"
  by pat_completeness auto
termination
  by (relation "measure (\<lambda>(p, filenameIndex, dotIndex). dotIndex - filenameIndex)") auto

definition os_path_splitext :: "string \<Rightarrow> string \<times> string" where
  "os_path_splitext p =
     (let sepIndex = rfind CHR ''/'' p; dotIndex = rfind CHR ''.'' p
      in if dotIndex > sepIndex \<and> splitext_loop p (nat (sepIndex + 1)) (nat dotIndex)
         then (take (nat dotIndex) p, drop (nat dotIndex) p)
         else (p, []))"

definition image_compressor :: "pil \<Rightarrow> world \<Rightarrow> string \<Rightarrow> int \<Rightarrow> world" where
  "image_compressor lib w file_path quality =
     (if list_ex (endswith (str_lower file_path))
           [''.jpg'', ''.jpeg'', ''.png'', ''.tiff'', ''.bmp'']
      then (case Image_open lib (files w) file_path of
              Inl e \<Rightarrow> print w (''Error compressing image: '' @ e)
            | Inr img \<Rightarrow>
                (case os_path_splitext file_path of (base, ext) \<Rightarrow>
                   let output_path = base @ ''_compressed'' @ ext
                   in (case Image_save lib (files w) img output_path None
                              \<lparr>sp_quality = Some quality, sp_optimize = True\<rparr> of
                         (Some e, fs') \<Rightarrow>
                           print (w\<lparr>files := fs'\<rparr>) (''Error compressing image: '' @ e)
                       | (None, fs') \<Rightarrow>
                           print (w\<lparr>files := fs'\<rparr>)
                             (''Image compressed and saved as: '' @ output_path))))
      else print w ''Unsupported image format!'')"

text \<open>Lines 29-49 of the script, given the answers of the two dialogs.\<close>

definition script_main :: "pil \<Rightarrow> world \<Rightarrow> string \<Rightarrow> int option \<Rightarrow> world" where
  "script_main lib w file_path quality_answer =
     (let w1 = print w ''Select an image file to compress''
      in if file_path \<noteq> []
         then (case quality_answer of
                 Some quality \<Rightarrow> image_compressor lib w1 file_path quality
               | None \<Rightarrow> print w1 ''Compression cancelled by user.'')
         else print w1 ''No file selected.'')"

section \<open>A small library instance for evaluating the model\<close>

text \<open>
  The decoder reads the mode from the first byte (4 for a 2 by 1 RGBA image, 200 for a 200
  by 200 greyscale image, 87 for an 8 by 7 greyscale image, anything else a 2 by 1 RGB
  image); the encoder writes a tag for the format, the quality, the size and the number
  of bands, and fails on the empty name. Name resolution drops a leading \<^verbatim>\<open>./\<close>.
  A 100 by 400 greyscale image stands for an image that is taller than wide.
\<close>

definition demo_rgb :: image where
  "demo_rgb = \<lparr>im_mode = ''RGB'', im_size = (2, 1), im_bands = [[1, 2], [3, 4], [5, 6]]\<rparr>"

definition demo_rgba :: image where
  "demo_rgba = \<lparr>im_mode = ''RGBA'', im_size = (2, 1),
                 im_bands = [[10, 20], [30, 40], [50, 60], [255, 0]]\<rparr>"

definition demo_grey :: image where
  "demo_grey = \<lparr>im_mode = ''L'', im_size = (200, 200), im_bands = [replicate 40000 7]\<rparr>"

definition demo_small :: image where
  "demo_small = \<lparr>im_mode = ''L'', im_size = (8, 7), im_bands = [replicate 56 7]\<rparr>"

definition demo_tall :: image where
  "demo_tall = \<lparr>im_mode = ''L'', im_size = (100, 400), im_bands = [replicate 40000 7]\<rparr>"

definition demo_decode :: "8 word list \<Rightarrow> string + image" where
  "demo_decode bytes =
     (if bytes = [] then Inl ''cannot identify image file''
      else if hd bytes = 4 then Inr demo_rgba
      else if hd bytes = 200 then Inr demo_grey
      else if hd bytes = 87 then Inr demo_small
      else Inr demo_rgb)"

definition demo_save ::
  "image \<Rightarrow> string option \<Rightarrow> save_params \<Rightarrow> string \<Rightarrow> fsnode option
     \<Rightarrow> string option \<times> fsnode option" where
  "demo_save img fmt params name old =
     (if name = [] then (Some ''cannot write'', old)
      else (None, Some (File
              [if fmt = Some ''PNG'' then 1 else if fmt = Some ''JPEG'' then 2 else 0,
               (case sp_quality params of None \<Rightarrow> 0 | Some q \<Rightarrow> of_int q),
               of_nat (fst (im_size img)), of_nat (snd (im_size img)),
               of_nat (length (im_bands img))])))"

definition demo_pil :: pil where
  "demo_pil =
     \<lparr>decode = demo_decode,
      resample = (\<lambda>img sz. map (\<lambda>b. replicate (fst sz * snd sz) 0) (im_bands img)),
      blend = (\<lambda>d s m. if m = 0 then d else s),
      save = demo_save\<rparr>"

definition demo_resolve :: "string \<Rightarrow> string" where
  "demo_resolve p = (if take 2 p = ''./'' then drop 2 p else p)"

definition demo_fs :: filesystem where
  "demo_fs =
     \<lparr>nodes = [''a.png'' \<mapsto> File [7], ''pic.bmp'' \<mapsto> File [8], ''b.PNG'' \<mapsto> File [9],
               ''photos/cat.jpeg'' \<mapsto> File [3], ''rgba.png'' \<mapsto> File [4],
               ''big.png'' \<mapsto> File [200], ''small.png'' \<mapsto> File [87]],
      resolve = demo_resolve\<rparr>"

section \<open>Which errors each stage can raise\<close>

lemma bind_err_Inl: "bind_err r f = Inl e \<Longrightarrow> r = Inl e \<or> (\<exists>x. r = Inr x \<and> f x = Inl e)"
  by (cases r) (simp_all add: bind_err_def)

lemma bind_err_Inr: "bind_err r f = Inr y \<Longrightarrow> \<exists>x. r = Inr x \<and> f x = Inr y"
  by (cases r) (simp_all add: bind_err_def)

lemma scale_dim_errors:
  "scale_dim a b c = Inl e \<Longrightarrow> e = ZeroDivisionError \<or> e = OverflowError"
  by (auto simp: scale_dim_def py_truediv_def py_mul_int_float_def py_float_of_int_def
        py_int_def bind_err_def split: if_splits sum.splits pyfloat.splits)

lemma width_bound_errors:
  "width_bound m d = Inl e \<Longrightarrow> e = ZeroDivisionError \<or> e = OverflowError"
  by (auto simp: width_bound_def bind_err_def
        split: prod.splits option.splits if_splits sum.splits dest: scale_dim_errors)

lemma height_bound_errors:
  "height_bound m d = Inl e \<Longrightarrow> e = ZeroDivisionError \<or> e = OverflowError"
  by (auto simp: height_bound_def bind_err_def
        split: prod.splits option.splits if_splits sum.splits dest: scale_dim_errors)

lemma new_dimensions_errors:
  "new_dimensions sz mw mh = Inl e \<Longrightarrow> e = ZeroDivisionError \<or> e = OverflowError"
  unfolding new_dimensions_def
  by (auto dest!: bind_err_Inl dest: width_bound_errors height_bound_errors)

lemma Image_resize_errors:
  "Image_resize lib img sz = Inl e \<Longrightarrow>
     e = OverflowError \<or> e = ValueError ''height and width must be > 0''"
  by (auto simp: Image_resize_def split: prod.splits if_splits)

lemma resize_step_errors:
  "resize_step lib img mw mh = Inl e \<Longrightarrow>
     e = ZeroDivisionError \<or> e = OverflowError \<or> e = ValueError ''height and width must be > 0''"
  unfolding resize_step_def
  by (auto split: if_splits dest!: bind_err_Inl dest: new_dimensions_errors Image_resize_errors)

lemma flatten_step_errors: "flatten_step lib img ext = Inl e \<Longrightarrow> e = IndexError"
  by (auto simp: flatten_step_def Let_def py_index_def bind_err_def split: if_splits)

lemma save_step_errors:
  "fst (save_step lib fs img out ext q) = Inl e \<Longrightarrow>
     \<exists>msg. e = ValueError (''Error saving compressed image: '' @ msg)"
  by (auto simp: save_step_def split: prod.splits option.splits if_splits)

section \<open>Input validation\<close>

text \<open>
  C7: for every input path that does not exist, \<^verbatim>\<open>compress_image\<close> raises
  \<^verbatim>\<open>FileNotFoundError\<close> and leaves the file system alone; the existence check comes
  before the extension check, so the extension of the missing path does not matter.
\<close>

theorem missing_input_raises_not_found:
  assumes "\<not> os_path_exists fs input_path"
  shows "compress_image lib fs input_path output_path quality max_width max_height
           = (Inl (FileNotFoundError (''Input file not found: '' @ input_path)), fs)"
  using assms by (simp add: compress_image_def)

theorem missing_input_raises_not_found_witness:
  "\<not> os_path_exists demo_fs ''nowhere.bmp'' \<and>
   compress_image demo_pil demo_fs ''nowhere.bmp'' None 85 None None
     = (Inl (FileNotFoundError ''Input file not found: nowhere.bmp''), demo_fs)"
proof -
  have h: "\<not> os_path_exists demo_fs ''nowhere.bmp''"
    by (simp add: os_path_exists_def fs_lookup_def demo_fs_def demo_resolve_def)
  show ?thesis
    using h missing_input_raises_not_found [OF h, of demo_pil None 85 None None] by simp
qed

text \<open>
  C6: for every input path that exists and whose lower-cased extension is not one of
  \<^verbatim>\<open>.png\<close>, \<^verbatim>\<open>.jpg\<close>, \<^verbatim>\<open>.jpeg\<close>, \<^verbatim>\<open>compress_image\<close> raises the \<^verbatim>\<open>ValueError\<close> whose
  message starts with "Unsupported file format", returns the file system as it was and
  does not consult the imaging library; when the lower-cased extension is one of the
  three (so \<^verbatim>\<open>.PNG\<close> is accepted), no error with that message is raised.
\<close>

theorem unsupported_extension_raises:
  assumes "os_path_exists fs input_path"
  shows "(str_lower (path_suffix (PurePath input_path)) \<notin> set supported_formats \<longrightarrow>
            compress_image lib fs input_path output_path quality max_width max_height
              = (Inl (ValueError (''Unsupported file format: ''
                        @ str_lower (path_suffix (PurePath input_path))
                        @ ''. Supported: .png, .jpg, .jpeg'')), fs))
       \<and> (str_lower (path_suffix (PurePath input_path)) \<in> set supported_formats \<longrightarrow>
            (\<forall>msg. fst (compress_image lib fs input_path output_path quality max_width max_height)
                     \<noteq> Inl (ValueError (''Unsupported file format'' @ msg))))"
proof (intro conjI impI allI)
  assume "str_lower (path_suffix (PurePath input_path)) \<notin> set supported_formats"
  with assms show "compress_image lib fs input_path output_path quality max_width max_height
              = (Inl (ValueError (''Unsupported file format: ''
                        @ str_lower (path_suffix (PurePath input_path))
                        @ ''. Supported: .png, .jpg, .jpeg'')), fs)"
    by (simp add: compress_image_def Let_def supported_formats_def)
next
  fix msg
  assume ok: "str_lower (path_suffix (PurePath input_path)) \<in> set supported_formats"
  show "fst (compress_image lib fs input_path output_path quality max_width max_height)
          \<noteq> Inl (ValueError (''Unsupported file format'' @ msg))"
  proof
    assume bad: "fst (compress_image lib fs input_path output_path quality max_width max_height)
                   = Inl (ValueError (''Unsupported file format'' @ msg))"
    show False
    proof (cases "Image_open lib fs input_path")
      case (Inl e)
      with assms ok bad show False by (simp add: compress_image_def Let_def)
    next
      case open_ok: (Inr img0)
      show False
      proof (cases "resize_step lib img0 max_width max_height")
        case (Inl e)
        with assms ok bad open_ok have "e = ValueError (''Unsupported file format'' @ msg)"
          by (simp add: compress_image_def Let_def)
        with resize_step_errors [OF Inl] show False by auto
      next
        case resized: (Inr img1)
        let ?out = "resolve_output input_path output_path"
        let ?ext = "str_lower (path_suffix (Path ?out))"
        show False
        proof (cases "flatten_step lib img1 ?ext")
          case (Inl e)
          with assms ok bad open_ok resized
          have "e = ValueError (''Unsupported file format'' @ msg)"
            by (simp add: compress_image_def Let_def)
          with flatten_step_errors [OF Inl] show False by simp
        next
          case (Inr img2)
          with assms ok bad open_ok resized
          have "fst (save_step lib fs img2 ?out ?ext quality)
                  = Inl (ValueError (''Unsupported file format'' @ msg))"
            by (simp add: compress_image_def Let_def)
          from save_step_errors [OF this] show False by simp
        qed
      qed
    qed
  qed
qed

theorem unsupported_extension_raises_witness:
  "os_path_exists demo_fs ''pic.bmp''
   \<and> str_lower (path_suffix (PurePath ''pic.bmp'')) \<notin> set supported_formats
   \<and> compress_image demo_pil demo_fs ''pic.bmp'' None 85 None None
       = (Inl (ValueError ''Unsupported file format: .bmp. Supported: .png, .jpg, .jpeg''),
          demo_fs)
   \<and> os_path_exists demo_fs ''b.PNG''
   \<and> str_lower (path_suffix (PurePath ''b.PNG'')) \<in> set supported_formats
   \<and> fst (compress_image demo_pil demo_fs ''b.PNG'' None 85 None None)
       \<noteq> Inl (ValueError ''Unsupported file format: .png. Supported: .png, .jpg, .jpeg'')"
proof -
  have e1: "os_path_exists demo_fs ''pic.bmp''" and e2: "os_path_exists demo_fs ''b.PNG''"
    by (simp_all add: os_path_exists_def fs_lookup_def demo_fs_def demo_resolve_def)
  have s1: "str_lower (path_suffix (PurePath ''pic.bmp'')) = ''.bmp''"
    and s2: "str_lower (path_suffix (PurePath ''b.PNG'')) = ''.png''"
    by code_simp+
  show ?thesis
    using e1 e2 unsupported_extension_raises [OF e1, of demo_pil None 85 None None]
      unsupported_extension_raises [OF e2, of demo_pil None 85 None None]
    by (simp add: s1 s2 supported_formats_def)
qed

section \<open>The encoder dispatch\<close>

lemma compress_image_reaches_save:
  assumes "os_path_exists fs input_path"
    and "str_lower (path_suffix (PurePath input_path)) \<in> set supported_formats"
    and "Image_open lib fs input_path = Inr opened"
    and "resize_step lib opened max_width max_height = Inr resized"
    and "flatten_step lib resized
           (str_lower (path_suffix (Path (resolve_output input_path output_path)))) = Inr flat"
  shows "compress_image lib fs input_path output_path quality max_width max_height
           = save_step lib fs flat (resolve_output input_path output_path)
               (str_lower (path_suffix (Path (resolve_output input_path output_path)))) quality"
  using assms by (simp add: compress_image_def Let_def)

lemma save_step_png:
  "save_step lib fs img out ''.png'' q =
     (case save lib img (Some ''PNG'') \<lparr>sp_quality = None, sp_optimize = True\<rparr>
             (str out) (fs_lookup fs (str out)) of
        (Some e, n) \<Rightarrow>
          (Inl (ValueError (''Error saving compressed image: '' @ e)), fs_write fs (str out) n)
      | (None, n) \<Rightarrow> (Inr (str out), fs_write fs (str out) n))"
  by (simp add: save_step_def Image_save_def split: prod.splits option.splits)

lemma save_step_jpeg:
  "ext \<noteq> ''.png'' \<Longrightarrow>
   save_step lib fs img out ext q =
     (case save lib img (Some ''JPEG'') \<lparr>sp_quality = Some q, sp_optimize = True\<rparr>
             (str out) (fs_lookup fs (str out)) of
        (Some e, n) \<Rightarrow>
          (Inl (ValueError (''Error saving compressed image: '' @ e)), fs_write fs (str out) n)
      | (None, n) \<Rightarrow> (Inr (str out), fs_write fs (str out) n))"
  by (simp add: save_step_def Image_save_def split: prod.splits option.splits)

lemma demo_open_a: "Image_open demo_pil demo_fs ''a.png'' = Inr demo_rgb"
  by (simp add: Image_open_def demo_pil_def fs_lookup_def demo_fs_def demo_resolve_def demo_decode_def)

lemma demo_exists_a: "os_path_exists demo_fs ''a.png''"
  by (simp add: os_path_exists_def fs_lookup_def demo_fs_def demo_resolve_def)

lemma demo_ext_a: "str_lower (path_suffix (PurePath ''a.png'')) \<in> set supported_formats"
  by code_simp

lemma resize_step_no_bounds: "resize_step lib img None None = Inr img"
  by (simp add: resize_step_def truthy_def)

lemma flatten_step_demo_rgb: "flatten_step lib demo_rgb e = Inr demo_rgb"
  by (simp add: flatten_step_def demo_rgb_def)

text \<open>
  C10: the dispatch has two branches and no error case. Whenever the call gets as far as
  encoding and the lower-cased extension of the resolved output path is anything but
  \<^verbatim>\<open>.png\<close>, the image is handed to the encoder as \<^verbatim>\<open>JPEG\<close> with the given quality and
  \<^verbatim>\<open>optimize=True\<close>; the call fails with "Error saving compressed image" exactly when
  that encoder call fails, and otherwise returns the output path.
\<close>

theorem non_png_extension_uses_jpeg_encoder:
  assumes "os_path_exists fs input_path"
    and "str_lower (path_suffix (PurePath input_path)) \<in> set supported_formats"
    and "Image_open lib fs input_path = Inr opened"
    and "resize_step lib opened max_width max_height = Inr resized"
    and "flatten_step lib resized
           (str_lower (path_suffix (Path (resolve_output input_path output_path)))) = Inr flat"
    and "str_lower (path_suffix (Path (resolve_output input_path output_path))) \<noteq> ''.png''"
  shows "compress_image lib fs input_path output_path quality max_width max_height =
           (case save lib flat (Some ''JPEG'') \<lparr>sp_quality = Some quality, sp_optimize = True\<rparr>
                   (str (resolve_output input_path output_path))
                   (fs_lookup fs (str (resolve_output input_path output_path))) of
              (Some e, n) \<Rightarrow>
                (Inl (ValueError (''Error saving compressed image: '' @ e)),
                 fs_write fs (str (resolve_output input_path output_path)) n)
            | (None, n) \<Rightarrow>
                (Inr (str (resolve_output input_path output_path)),
                 fs_write fs (str (resolve_output input_path output_path)) n))"
  using compress_image_reaches_save [OF assms(1-5)] save_step_jpeg [OF assms(6)] by simp

theorem non_png_extension_uses_jpeg_encoder_witness:
  "compress_image demo_pil demo_fs ''a.png'' (Some ''out.bmp'') 85 None None
     = (Inr ''out.bmp'', fs_write demo_fs ''out.bmp'' (Some (File [2, 85, 2, 1, 3])))
   \<and> compress_image demo_pil demo_fs ''a.png'' (Some ''noext'') 85 None None
     = (Inr ''noext'', fs_write demo_fs ''noext'' (Some (File [2, 85, 2, 1, 3])))
   \<and> compress_image demo_pil demo_fs ''a.png'' (Some []) 85 None None
     = (Inl (ValueError ''Error saving compressed image: cannot write''), demo_fs)"
proof -
  have rs: "resize_step demo_pil demo_rgb None None = Inr demo_rgb"
    by (rule resize_step_no_bounds)
  have s1: "str_lower (path_suffix (PurePath ''out.bmp'')) = ''.bmp''"
    and s2: "str_lower (path_suffix (PurePath ''noext'')) = []"
    and s3: "str_lower (path_suffix (PurePath [])) = []"
    by code_simp+
  have ne: "str_lower (path_suffix (Path (resolve_output ''a.png'' (Some ''out.bmp'')))) \<noteq> ''.png''"
    "str_lower (path_suffix (Path (resolve_output ''a.png'' (Some ''noext'')))) \<noteq> ''.png''"
    "str_lower (path_suffix (Path (resolve_output ''a.png'' (Some [])))) \<noteq> ''.png''"
    by (simp_all add: resolve_output_def s1 s2 s3)
  have sv: "save demo_pil demo_rgb (Some ''JPEG'') \<lparr>sp_quality = Some 85, sp_optimize = True\<rparr>
              name old
            = (if name = [] then (Some ''cannot write'', old)
               else (None, Some (File [2, 85, 2, 1, 3])))" for name old
    by (simp add: demo_pil_def demo_save_def demo_rgb_def)
  have u: "fs_write demo_fs [] (fs_lookup demo_fs []) = demo_fs"
    by (simp add: fs_write_def fs_lookup_def)
  show ?thesis
    using non_png_extension_uses_jpeg_encoder
            [OF demo_exists_a demo_ext_a demo_open_a rs flatten_step_demo_rgb ne(1), of 85]
      non_png_extension_uses_jpeg_encoder
            [OF demo_exists_a demo_ext_a demo_open_a rs flatten_step_demo_rgb ne(2), of 85]
      non_png_extension_uses_jpeg_encoder
            [OF demo_exists_a demo_ext_a demo_open_a rs flatten_step_demo_rgb ne(3), of 85]
    by (simp add: sv u resolve_output_def)
qed

text \<open>
  C4: when the lower-cased extension of the resolved output path is \<^verbatim>\<open>.png\<close>, two calls
  that differ only in \<^verbatim>\<open>quality\<close> give the same result and the same files; the image is
  handed to the encoder as \<^verbatim>\<open>PNG\<close> with \<^verbatim>\<open>optimize=True\<close> and no quality.
\<close>

theorem png_output_ignores_quality:
  assumes "str_lower (path_suffix (Path (resolve_output input_path output_path))) = ''.png''"
  shows "compress_image lib fs input_path output_path q1 max_width max_height
           = compress_image lib fs input_path output_path q2 max_width max_height
       \<and> save_step lib fs img (resolve_output input_path output_path)
             (str_lower (path_suffix (Path (resolve_output input_path output_path)))) q1
           = (case save lib img (Some ''PNG'') \<lparr>sp_quality = None, sp_optimize = True\<rparr>
                     (str (resolve_output input_path output_path))
                     (fs_lookup fs (str (resolve_output input_path output_path))) of
                (Some e, n) \<Rightarrow>
                  (Inl (ValueError (''Error saving compressed image: '' @ e)),
                   fs_write fs (str (resolve_output input_path output_path)) n)
              | (None, n) \<Rightarrow>
                  (Inr (str (resolve_output input_path output_path)),
                   fs_write fs (str (resolve_output input_path output_path)) n))"
proof
  show "compress_image lib fs input_path output_path q1 max_width max_height
           = compress_image lib fs input_path output_path q2 max_width max_height"
    by (simp add: compress_image_def Let_def assms save_step_png
          split: sum.splits)
  show "save_step lib fs img (resolve_output input_path output_path)
             (str_lower (path_suffix (Path (resolve_output input_path output_path)))) q1
           = (case save lib img (Some ''PNG'') \<lparr>sp_quality = None, sp_optimize = True\<rparr>
                     (str (resolve_output input_path output_path))
                     (fs_lookup fs (str (resolve_output input_path output_path))) of
                (Some e, n) \<Rightarrow>
                  (Inl (ValueError (''Error saving compressed image: '' @ e)),
                   fs_write fs (str (resolve_output input_path output_path)) n)
              | (None, n) \<Rightarrow>
                  (Inr (str (resolve_output input_path output_path)),
                   fs_write fs (str (resolve_output input_path output_path)) n))"
    by (simp add: assms save_step_png)
qed

theorem png_output_ignores_quality_witness:
  "str_lower (path_suffix (Path (resolve_output ''a.png'' None))) = ''.png''
   \<and> compress_image demo_pil demo_fs ''a.png'' None 10 None None
       = compress_image demo_pil demo_fs ''a.png'' None 95 None None
   \<and> save_step demo_pil demo_fs demo_rgb (resolve_output ''a.png'' None) ''.png'' 10
       = (Inr ''a_compressed.png'', fs_write demo_fs ''a_compressed.png'' (Some (File [1, 0, 2, 1, 3])))"
proof -
  have h: "str_lower (path_suffix (Path (resolve_output ''a.png'' None))) = ''.png''"
    by code_simp
  have o: "str (resolve_output ''a.png'' None) = ''a_compressed.png''"
    by code_simp
  have sv: "save demo_pil demo_rgb (Some ''PNG'') \<lparr>sp_quality = None, sp_optimize = True\<rparr>
              ''a_compressed.png'' old = (None, Some (File [1, 0, 2, 1, 3]))" for old
    by (simp add: demo_pil_def demo_save_def demo_rgb_def)
  show ?thesis
    using h png_output_ignores_quality [OF h, where lib = demo_pil and fs = demo_fs
        and ?q1.0 = 10 and ?q2.0 = 95 and max_width = None and max_height = None
        and img = demo_rgb]
    by (simp add: o sv)
qed

section \<open>Paths\<close>

lemma split_on_not_Nil [simp]: "split_on c s \<noteq> []"
  by (induction s) (auto split: list.splits)

lemma split_on_no_sep: "c \<notin> set s \<Longrightarrow> split_on c s = [s]"
  by (induction s) auto

lemma split_on_append_sep: "split_on c (a @ c # b) = split_on c a @ split_on c b"
proof (induction a)
  case Nil
  show ?case by simp
next
  case (Cons x a)
  show ?case
  proof (cases "x = c")
    case True
    with Cons show ?thesis by simp
  next
    case False
    obtain y ys where s: "split_on c a = y # ys"
      by (cases "split_on c a") auto
    with False Cons show ?thesis by simp
  qed
qed

lemma split_on_pieces: "x \<in> set (split_on c s) \<Longrightarrow> c \<notin> set x"
proof (induction s arbitrary: x)
  case Nil
  then show ?case by simp
next
  case (Cons a s)
  obtain y ys where s: "split_on c s = y # ys"
    by (cases "split_on c s") auto
  from Cons.IH [of y] s have y: "c \<notin> set y" by simp
  from Cons.IH s have ys: "\<And>z. z \<in> set ys \<Longrightarrow> c \<notin> set z" by simp
  from Cons.prems s y ys show ?case
    by (auto split: if_splits)
qed

text \<open>The components of a path do not depend on how many leading slashes the root took.\<close>

lemma splitroot_root_cases:
  "splitroot_root s = [] \<or> splitroot_root s = ''/'' \<or> splitroot_root s = ''//''"
proof (cases s)
  case Nil
  then show ?thesis by (simp add: splitroot_root_def)
next
  case (Cons a t)
  show ?thesis
  proof (cases t)
    case Nil
    with Cons show ?thesis by (simp add: splitroot_root_def)
  next
    case (Cons b u)
    with \<open>s = a # t\<close> show ?thesis
      by (cases u) (auto simp: splitroot_root_def)
  qed
qed

lemma splitroot_root_prefix: "\<exists>rest. s = splitroot_root s @ rest"
proof (cases s)
  case Nil
  then show ?thesis by (simp add: splitroot_root_def)
next
  case (Cons a t)
  then show ?thesis
    by (cases t) (auto simp: splitroot_root_def)
qed

lemma p_tail_PurePath:
  "p_tail (PurePath s) = filter (\<lambda>x. x \<noteq> [] \<and> x \<noteq> ''.'') (split_on CHR ''/'' s)"
proof -
  obtain rest where r: "s = splitroot_root s @ rest"
    using splitroot_root_prefix by blast
  have d: "drop (length (splitroot_root s)) s = rest"
    by (subst r) simp
  from splitroot_root_cases [of s] show ?thesis
  proof (elim disjE)
    assume "splitroot_root s = []"
    then show ?thesis by (simp add: PurePath_def)
  next
    assume e: "splitroot_root s = ''/''"
    with r have "s = CHR ''/'' # rest" by simp
    then have "split_on CHR ''/'' s = [] # split_on CHR ''/'' rest" by simp
    with d e show ?thesis by (simp add: PurePath_def)
  next
    assume e: "splitroot_root s = ''//''"
    with r have "s = CHR ''/'' # CHR ''/'' # rest" by simp
    then have "split_on CHR ''/'' s = [] # [] # split_on CHR ''/'' rest" by simp
    with d e show ?thesis by (simp add: PurePath_def)
  qed
qed

lemma p_tail_append_sep:
  "p_tail (PurePath (a @ CHR ''/'' # b)) = p_tail (PurePath a) @ p_tail (PurePath b)"
  by (simp add: p_tail_PurePath split_on_append_sep)

lemma p_tail_single:
  "CHR ''/'' \<notin> set k \<Longrightarrow> k \<noteq> [] \<Longrightarrow> k \<noteq> ''.'' \<Longrightarrow> p_tail (PurePath k) = [k]"
  by (simp add: p_tail_PurePath split_on_no_sep)

lemma p_root_single: "CHR ''/'' \<notin> set k \<Longrightarrow> p_root (PurePath k) = []"
  by (cases k) (auto simp: PurePath_def splitroot_root_def Let_def)

lemma path_name_no_sep: "CHR ''/'' \<notin> set (path_name (PurePath s))"
proof (cases "p_tail (PurePath s) = []")
  case True
  then show ?thesis by (simp add: path_name_def)
next
  case False
  then have "last (p_tail (PurePath s)) \<in> set (p_tail (PurePath s))" by simp
  then have "last (p_tail (PurePath s)) \<in> set (split_on CHR ''/'' s)"
    by (simp add: p_tail_PurePath)
  from split_on_pieces [OF this] False show ?thesis by (simp add: path_name_def)
qed

lemma stem_suffix_name: "path_stem p @ path_suffix p = path_name p"
  by (simp add: path_stem_def path_suffix_def Let_def)

lemma compressed_name_clean:
  "CHR ''/'' \<notin> set (compressed_name (PurePath s))"
  "compressed_name (PurePath s) \<noteq> []"
  "compressed_name (PurePath s) \<noteq> ''.''"
proof -
  have "set (path_stem (PurePath s)) \<union> set (path_suffix (PurePath s))
          = set (path_name (PurePath s))"
    by (subst stem_suffix_name [symmetric]) simp
  with path_name_no_sep [of s]
  have "CHR ''/'' \<notin> set (path_stem (PurePath s))" "CHR ''/'' \<notin> set (path_suffix (PurePath s))"
    by auto
  then show "CHR ''/'' \<notin> set (compressed_name (PurePath s))"
    by (simp add: compressed_name_def)
  show "compressed_name (PurePath s) \<noteq> []" by (simp add: compressed_name_def)
  have "length (compressed_name (PurePath s)) \<ge> 11" by (simp add: compressed_name_def)
  then show "compressed_name (PurePath s) \<noteq> ''.''" by auto
qed

lemma length_compressed_name:
  "length (compressed_name p) = length (path_name p) + 11"
  by (simp add: compressed_name_def stem_suffix_name [symmetric])

lemma resolve_output_None:
  "resolve_output input_path None =
     PPath \<lparr>p_root = p_root (PurePath input_path),
            p_tail = butlast (p_tail (PurePath input_path))
                       @ [compressed_name (PurePath input_path)]\<rparr>"
proof -
  note c = compressed_name_clean [of input_path]
  have r: "p_root (PurePath (compressed_name (PurePath input_path))) = []"
    by (rule p_root_single) (rule c(1))
  have t: "p_tail (PurePath (compressed_name (PurePath input_path)))
             = [compressed_name (PurePath input_path)]"
    by (rule p_tail_single) (rule c)+
  show ?thesis
    by (simp add: resolve_output_def Let_def path_truediv_def path_parent_def r t)
qed

lemma str_join_snoc:
  "str_join sep (ps @ [k]) = (if ps = [] then k else str_join sep ps @ sep @ k)"
  by (induction sep ps rule: str_join.induct) auto

text \<open>The derived output path as a string: the parent directory, a slash when the parent
  has components, and the new file name.\<close>

lemma str_resolve_output_None:
  "str (resolve_output input_path None) =
     p_root (PurePath input_path)
       @ (if butlast (p_tail (PurePath input_path)) = [] then []
          else str_join ''/'' (butlast (p_tail (PurePath input_path))) @ ''/'')
       @ compressed_name (PurePath input_path)"
  using compressed_name_clean(2) [of input_path]
  by (simp add: resolve_output_None path_str_def Let_def str_join_snoc)

lemma name_of_derived:
  "path_name (PurePath (str (resolve_output input_path None)))
     = compressed_name (PurePath input_path)"
proof -
  let ?P = "PurePath input_path"
  let ?k = "compressed_name ?P"
  let ?ps = "butlast (p_tail ?P)"
  note c = compressed_name_clean [of input_path]
  have t: "p_tail (PurePath ?k) = [?k]" by (rule p_tail_single) (rule c)+
  have "p_tail (PurePath (str (resolve_output input_path None))) \<noteq> []
        \<and> last (p_tail (PurePath (str (resolve_output input_path None)))) = ?k"
  proof (cases "?ps = []")
    case False
    then have "str (resolve_output input_path None)
                 = (p_root ?P @ str_join ''/'' ?ps) @ CHR ''/'' # ?k"
      by (simp add: str_resolve_output_None)
    then have "p_tail (PurePath (str (resolve_output input_path None)))
                 = p_tail (PurePath (p_root ?P @ str_join ''/'' ?ps)) @ [?k]"
      by (simp only: p_tail_append_sep t)
    then show ?thesis by simp
  next
    case True
    then have s: "str (resolve_output input_path None) = p_root ?P @ ?k"
      by (simp add: str_resolve_output_None)
    have "p_root ?P = splitroot_root input_path" by (simp add: PurePath_def Let_def)
    with splitroot_root_cases [of input_path]
    consider "p_root ?P = []" | "p_root ?P = [] @ ''/''" | "p_root ?P = ''/'' @ ''/''"
      by auto
    then show ?thesis
    proof cases
      case 1
      with s t show ?thesis by simp
    next
      case 2
      with s have "str (resolve_output input_path None) = [] @ CHR ''/'' # ?k" by simp
      then have "p_tail (PurePath (str (resolve_output input_path None)))
                   = p_tail (PurePath []) @ [?k]"
        by (simp only: p_tail_append_sep t)
      then show ?thesis by simp
    next
      case 3
      with s have "str (resolve_output input_path None) = ''/'' @ CHR ''/'' # ?k" by simp
      then have "p_tail (PurePath (str (resolve_output input_path None)))
                   = p_tail (PurePath ''/'') @ [?k]"
        by (simp only: p_tail_append_sep t)
      then show ?thesis by simp
    qed
  qed
  then show ?thesis by (simp add: path_name_def)
qed

lemma derived_differs_from_input: "str (resolve_output input_path None) \<noteq> input_path"
proof
  assume "str (resolve_output input_path None) = input_path"
  then have "path_name (PurePath (str (resolve_output input_path None)))
               = path_name (PurePath input_path)" by simp
  then have "length (compressed_name (PurePath input_path))
               = length (path_name (PurePath input_path))"
    by (simp only: name_of_derived)
  then show False by (simp add: length_compressed_name)
qed

section \<open>The returned path and the files written\<close>

lemma fs_lookup_write:
  "fs_lookup (fs_write fs p n) q = (if resolve fs q = resolve fs p then n else fs_lookup fs q)"
  by (simp add: fs_lookup_def fs_write_def)

lemma resolve_write [simp]: "resolve (fs_write fs p n) = resolve fs"
  by (simp add: fs_write_def)

lemma fs_write_same: "fs_write fs p (fs_lookup fs p) = fs"
  by (simp add: fs_write_def fs_lookup_def)

lemma save_step_result:
  "save_step lib fs img out ext q = (Inr r, fs') \<Longrightarrow> r = str out"
  by (auto simp: save_step_def split: prod.splits option.splits if_splits)

lemma save_step_frame:
  "\<exists>n. snd (save_step lib fs img out ext q) = fs_write fs (str out) n"
  by (auto simp: save_step_def Image_save_def split: prod.splits option.splits)

lemma compress_image_result:
  assumes "compress_image lib fs input_path output_path quality max_width max_height
             = (Inr r, fs')"
  shows "r = str (resolve_output input_path output_path)"
  using assms
  by (auto simp: compress_image_def Let_def
        split: if_splits sum.splits dest: save_step_result)

lemma compress_image_frame:
  "snd (compress_image lib fs input_path output_path quality max_width max_height) = fs
   \<or> (\<exists>n. snd (compress_image lib fs input_path output_path quality max_width max_height)
             = fs_write fs (str (resolve_output input_path output_path)) n)"
proof -
  let ?out = "resolve_output input_path output_path"
  let ?ext = "str_lower (path_suffix (Path ?out))"
  have "\<exists>n. snd (save_step lib fs img ?out ?ext quality) = fs_write fs (str ?out) n" for img
    by (rule save_step_frame)
  then show ?thesis
    by (auto simp: compress_image_def Let_def split: if_splits sum.splits)
qed

lemma demo_exists_cat: "os_path_exists demo_fs ''photos/cat.jpeg''"
  by (simp add: os_path_exists_def fs_lookup_def demo_fs_def demo_resolve_def)

lemma demo_ext_cat:
  "str_lower (path_suffix (PurePath ''photos/cat.jpeg'')) \<in> set supported_formats"
  by code_simp

lemma demo_open_cat: "Image_open demo_pil demo_fs ''photos/cat.jpeg'' = Inr demo_rgb"
  by (simp add: Image_open_def demo_pil_def fs_lookup_def demo_fs_def demo_resolve_def
        demo_decode_def)

lemma demo_out_cat:
  "str (resolve_output ''photos/cat.jpeg'' None) = ''photos/cat_compressed.jpeg''"
  "str_lower (path_suffix (Path (resolve_output ''photos/cat.jpeg'' None))) = ''.jpeg''"
  by code_simp+

lemma demo_save_rgb:
  "save demo_pil demo_rgb fmt params name old
     = (if name = [] then (Some ''cannot write'', old)
        else (None, Some (File
                [if fmt = Some ''PNG'' then 1 else if fmt = Some ''JPEG'' then 2 else 0,
                 (case sp_quality params of None \<Rightarrow> 0 | Some q \<Rightarrow> of_int q), 2, 1, 3])))"
  by (simp add: demo_pil_def demo_save_def demo_rgb_def)

lemma demo_compress_cat:
  "compress_image demo_pil demo_fs ''photos/cat.jpeg'' None 85 None None
     = (Inr ''photos/cat_compressed.jpeg'',
        fs_write demo_fs ''photos/cat_compressed.jpeg'' (Some (File [2, 85, 2, 1, 3])))"
proof -
  have "compress_image demo_pil demo_fs ''photos/cat.jpeg'' None 85 None None
          = save_step demo_pil demo_fs demo_rgb (resolve_output ''photos/cat.jpeg'' None)
              (str_lower (path_suffix (Path (resolve_output ''photos/cat.jpeg'' None)))) 85"
    by (rule compress_image_reaches_save
          [OF demo_exists_cat demo_ext_cat demo_open_cat resize_step_no_bounds
              flatten_step_demo_rgb])
  then show ?thesis
    by (simp add: demo_out_cat save_step_jpeg demo_save_rgb)
qed

lemma demo_compress_to:
  assumes "str_lower (path_suffix (PurePath name)) = ''.png''" and "name \<noteq> []"
  shows "compress_image demo_pil demo_fs ''a.png'' (Some name) 85 None None
           = (Inr name, fs_write demo_fs name (Some (File [1, 0, 2, 1, 3])))"
proof -
  have "compress_image demo_pil demo_fs ''a.png'' (Some name) 85 None None
          = save_step demo_pil demo_fs demo_rgb (resolve_output ''a.png'' (Some name))
              (str_lower (path_suffix (Path (resolve_output ''a.png'' (Some name))))) 85"
    by (rule compress_image_reaches_save
          [OF demo_exists_a demo_ext_a demo_open_a resize_step_no_bounds flatten_step_demo_rgb])
  then show ?thesis
    using assms by (simp add: save_step_png demo_save_rgb resolve_output_def)
qed

lemma demo_compress_explicit:
  "compress_image demo_pil demo_fs ''a.png'' (Some ''sub/out.png'') 85 None None
     = (Inr ''sub/out.png'', fs_write demo_fs ''sub/out.png'' (Some (File [1, 0, 2, 1, 3])))"
proof -
  have "str_lower (path_suffix (PurePath ''sub/out.png'')) = ''.png''"
    by code_simp
  then show ?thesis by (rule demo_compress_to) simp
qed

lemma demo_compress_onto_input:
  "compress_image demo_pil demo_fs ''a.png'' (Some ''a.png'') 85 None None
     = (Inr ''a.png'', fs_write demo_fs ''a.png'' (Some (File [1, 0, 2, 1, 3])))"
proof -
  have "str_lower (path_suffix (PurePath ''a.png'')) = ''.png''"
    by code_simp
  then show ?thesis by (rule demo_compress_to) simp
qed

lemma demo_compress_onto_alias:
  "compress_image demo_pil demo_fs ''a.png'' (Some ''./a.png'') 85 None None
     = (Inr ''./a.png'', fs_write demo_fs ''./a.png'' (Some (File [1, 0, 2, 1, 3])))"
proof -
  have "str_lower (path_suffix (PurePath ''./a.png'')) = ''.png''"
    by code_simp
  then show ?thesis by (rule demo_compress_to) simp
qed

text \<open>
  C8: a successful call returns the resolved output path. An explicit output path is
  returned verbatim. Without one, the result is the input's parent directory (its root and
  all components but the last, joined by slashes), a slash when the parent has
  components, and the file name \<open>stem @ ''_compressed'' @ suffix\<close>, with stem and suffix
  those of the input path.
\<close>

theorem returns_resolved_output_path:
  assumes "compress_image lib fs input_path output_path quality max_width max_height
             = (Inr r, fs')"
  shows "r = (case output_path of
                Some p \<Rightarrow> p
              | None \<Rightarrow>
                  p_root (PurePath input_path)
                    @ (if butlast (p_tail (PurePath input_path)) = [] then []
                       else str_join ''/'' (butlast (p_tail (PurePath input_path))) @ ''/'')
                    @ path_stem (PurePath input_path) @ ''_compressed''
                    @ path_suffix (PurePath input_path))"
proof (cases output_path)
  case None
  with compress_image_result [OF assms] show ?thesis
    by (simp only: str_resolve_output_None compressed_name_def option.case)
next
  case (Some p)
  with compress_image_result [OF assms] show ?thesis
    by (simp add: resolve_output_def)
qed

theorem returns_resolved_output_path_witness:
  "compress_image demo_pil demo_fs ''photos/cat.jpeg'' None 85 None None
     = (Inr ''photos/cat_compressed.jpeg'',
        fs_write demo_fs ''photos/cat_compressed.jpeg'' (Some (File [2, 85, 2, 1, 3])))
   \<and> ''photos/cat_compressed.jpeg''
       = p_root (PurePath ''photos/cat.jpeg'')
           @ (if butlast (p_tail (PurePath ''photos/cat.jpeg'')) = [] then []
              else str_join ''/'' (butlast (p_tail (PurePath ''photos/cat.jpeg''))) @ ''/'')
           @ path_stem (PurePath ''photos/cat.jpeg'') @ ''_compressed''
           @ path_suffix (PurePath ''photos/cat.jpeg'')
   \<and> compress_image demo_pil demo_fs ''a.png'' (Some ''sub/out.png'') 85 None None
     = (Inr ''sub/out.png'', fs_write demo_fs ''sub/out.png'' (Some (File [1, 0, 2, 1, 3])))"
  using demo_compress_cat demo_compress_explicit
    returns_resolved_output_path [OF demo_compress_cat]
    returns_resolved_output_path [OF demo_compress_explicit]
  by simp

text \<open>
  C3, as the code has it: a call writes no file other than the one that the resolved
  output path denotes, and it changes no name's meaning. The input file keeps its
  contents whenever the resolved output path does not denote the input file. When it does
  denote it (the caller names the input path itself, or another name of the same file
  such as \<^verbatim>\<open>./a.png\<close> for \<^verbatim>\<open>a.png\<close>), the call overwrites the input.
\<close>

theorem input_kept_unless_output_denotes_it:
  assumes "resolve fs (str (resolve_output input_path output_path)) \<noteq> resolve fs input_path"
  shows "fs_lookup (snd (compress_image lib fs input_path output_path quality
                           max_width max_height)) input_path
           = fs_lookup fs input_path
       \<and> (\<forall>p. resolve fs p \<noteq> resolve fs (str (resolve_output input_path output_path)) \<longrightarrow>
              fs_lookup (snd (compress_image lib fs input_path output_path quality
                                max_width max_height)) p
                = fs_lookup fs p)
       \<and> resolve (snd (compress_image lib fs input_path output_path quality
                          max_width max_height)) = resolve fs"
proof -
  let ?after = "snd (compress_image lib fs input_path output_path quality max_width max_height)"
  let ?out = "str (resolve_output input_path output_path)"
  from compress_image_frame [of lib fs input_path output_path quality max_width max_height]
  have f: "?after = fs \<or> (\<exists>n. ?after = fs_write fs ?out n)" .
  then have r: "resolve ?after = resolve fs" by auto
  from f have k: "resolve fs p \<noteq> resolve fs ?out \<Longrightarrow> fs_lookup ?after p = fs_lookup fs p" for p
    by (auto simp: fs_lookup_write)
  from k [of input_path] assms have "fs_lookup ?after input_path = fs_lookup fs input_path"
    by simp
  with k r show ?thesis by blast
qed

theorem input_kept_unless_output_denotes_it_witness:
  "resolve demo_fs (str (resolve_output ''photos/cat.jpeg'' None))
     \<noteq> resolve demo_fs ''photos/cat.jpeg''
   \<and> fs_lookup (snd (compress_image demo_pil demo_fs ''photos/cat.jpeg'' None 85 None None))
         ''photos/cat.jpeg'' = Some (File [3])
   \<and> resolve demo_fs ''a.png'' \<noteq> resolve demo_fs (str (resolve_output ''photos/cat.jpeg'' None))
   \<and> fs_lookup (snd (compress_image demo_pil demo_fs ''photos/cat.jpeg'' None 85 None None))
         ''a.png'' = Some (File [7])"
proof -
  have h: "resolve demo_fs (str (resolve_output ''photos/cat.jpeg'' None))
             \<noteq> resolve demo_fs ''photos/cat.jpeg''"
    by (simp add: demo_out_cat demo_fs_def demo_resolve_def)
  have n: "resolve demo_fs ''a.png''
             \<noteq> resolve demo_fs (str (resolve_output ''photos/cat.jpeg'' None))"
    by (simp add: demo_out_cat demo_fs_def demo_resolve_def)
  have v: "fs_lookup demo_fs ''photos/cat.jpeg'' = Some (File [3])"
    "fs_lookup demo_fs ''a.png'' = Some (File [7])"
    by (simp_all add: fs_lookup_def demo_fs_def demo_resolve_def)
  from input_kept_unless_output_denotes_it [OF h, of demo_pil 85 None None] h n v
  show ?thesis by simp
qed

theorem input_overwritten_when_named_as_output:
  "fs_lookup demo_fs ''a.png'' = Some (File [7])
   \<and> fs_lookup (snd (compress_image demo_pil demo_fs ''a.png'' (Some ''a.png'') 85 None None))
         ''a.png'' = Some (File [1, 0, 2, 1, 3])
   \<and> fs_lookup (snd (compress_image demo_pil demo_fs ''a.png'' (Some ''a.png'') 85 None None))
         ''a.png'' \<noteq> fs_lookup demo_fs ''a.png''
   \<and> fs_lookup (snd (compress_image demo_pil demo_fs ''a.png'' (Some ''./a.png'') 85 None None))
         ''a.png'' = Some (File [1, 0, 2, 1, 3])"
proof -
  have v: "fs_lookup demo_fs ''a.png'' = Some (File [7])"
    by (simp add: fs_lookup_def demo_fs_def demo_resolve_def)
  have r: "resolve demo_fs ''./a.png'' = resolve demo_fs ''a.png''"
    by (simp add: demo_fs_def demo_resolve_def)
  show ?thesis
    by (simp add: demo_compress_onto_input demo_compress_onto_alias fs_lookup_write v r)
qed

section \<open>Flattening onto white\<close>

lemma resize_step_mode:
  "resize_step lib img mw mh = Inr img' \<Longrightarrow> im_mode img' = im_mode img"
  by (auto simp: resize_step_def Image_resize_def bind_err_def
        split: if_splits sum.splits prod.splits)

lemma alpha_band:
  "3 < length (im_bands img) \<Longrightarrow>
   py_index (Image_split img) 3
     = Inr \<lparr>im_mode = ''L'', im_size = im_size img, im_bands = [im_bands img ! 3]\<rparr>"
  by (simp add: py_index_def Image_split_def)

lemma flatten_step_rgba:
  assumes "im_mode img = ''RGBA''" and "3 < length (im_bands img)"
    and "ext = ''.jpg'' \<or> ext = ''.jpeg''"
  shows "flatten_step lib img ext =
           Inr (Image_paste lib (Image_new ''RGB'' (im_size img) [255, 255, 255]) img
                  \<lparr>im_mode = ''L'', im_size = im_size img, im_bands = [im_bands img ! 3]\<rparr>)"
  using assms by (auto simp: flatten_step_def Let_def bind_err_def alpha_band)

lemma paste_mode_size:
  "im_mode (Image_paste lib dst src alpha) = im_mode dst"
  "im_size (Image_paste lib dst src alpha) = im_size dst"
  by (simp_all add: Image_paste_def)

lemma paste_on_white_bands:
  assumes "length (im_bands img) = 4"
  shows "length (im_bands (Image_paste lib (Image_new ''RGB'' sz [255, 255, 255]) img alpha)) = 3"
  using assms by (simp add: Image_paste_def Image_new_def)

lemma paste_on_white_sample:
  assumes "length (im_bands img) = 4"
    and "\<forall>b \<in> set (im_bands img). length b = fst sz * snd sz"
    and "i < 3" and "k < fst sz * snd sz"
  shows "im_bands (Image_paste lib (Image_new ''RGB'' sz [255, 255, 255]) img
                     \<lparr>im_mode = ''L'', im_size = sz, im_bands = [im_bands img ! 3]\<rparr>) ! i ! k
           = blend lib 255 (im_bands img ! i ! k) (im_bands img ! 3 ! k)"
proof -
  let ?n = "fst sz * snd sz"
  have li: "length (im_bands img ! i) = ?n" and l3: "length (im_bands img ! 3) = ?n"
    using assms by (simp_all)
  have wi: "[r, r, r] ! i = r" for r :: "8 word list"
    using \<open>i < 3\<close> by (auto simp: less_Suc_eq numeral_3_eq_3 nth_Cons')
  have "im_bands (Image_paste lib (Image_new ''RGB'' sz [255, 255, 255]) img
                     \<lparr>im_mode = ''L'', im_size = sz, im_bands = [im_bands img ! 3]\<rparr>) ! i
          = map2 (\<lambda>(dv, sv) mv. blend lib dv sv mv)
              (zip ([replicate ?n 255, replicate ?n 255, replicate ?n 255] ! i) (im_bands img ! i))
              (im_bands img ! 3)"
    using assms(1) \<open>i < 3\<close> by (simp add: Image_paste_def Image_new_def)
  then show ?thesis
    using li l3 \<open>k < ?n\<close> by (simp add: wi)
qed

lemma demo_exists_rgba: "os_path_exists demo_fs ''rgba.png''"
  by (simp add: os_path_exists_def fs_lookup_def demo_fs_def demo_resolve_def)

lemma demo_ext_rgba: "str_lower (path_suffix (PurePath ''rgba.png'')) \<in> set supported_formats"
  by code_simp

lemma demo_open_rgba: "Image_open demo_pil demo_fs ''rgba.png'' = Inr demo_rgba"
  by (simp add: Image_open_def demo_pil_def fs_lookup_def demo_fs_def demo_resolve_def demo_decode_def)

text \<open>
  C5: when the decoded image has mode \<^verbatim>\<open>RGBA\<close> (with its four bands, each of width times
  height samples) and the lower-cased extension of the resolved output path is \<^verbatim>\<open>.jpg\<close>
  or \<^verbatim>\<open>.jpeg\<close>, the image handed to the JPEG encoder is a new \<^verbatim>\<open>RGB\<close> image of the
  same size with three bands, each sample being the library's blend of white (255) with
  the source sample under the alpha sample as mask.
\<close>

theorem rgba_is_flattened_for_jpeg:
  assumes "os_path_exists fs input_path"
    and "str_lower (path_suffix (PurePath input_path)) \<in> set supported_formats"
    and "Image_open lib fs input_path = Inr opened"
    and "im_mode opened = ''RGBA''"
    and "resize_step lib opened max_width max_height = Inr resized"
    and "length (im_bands resized) = 4"
    and "\<forall>b \<in> set (im_bands resized). length b = fst (im_size resized) * snd (im_size resized)"
    and "str_lower (path_suffix (Path (resolve_output input_path output_path))) = ''.jpg''
         \<or> str_lower (path_suffix (Path (resolve_output input_path output_path))) = ''.jpeg''"
  shows "\<exists>flat.
           compress_image lib fs input_path output_path quality max_width max_height
             = save_step lib fs flat (resolve_output input_path output_path)
                 (str_lower (path_suffix (Path (resolve_output input_path output_path)))) quality
         \<and> im_mode flat = ''RGB''
         \<and> im_size flat = im_size resized
         \<and> length (im_bands flat) = 3
         \<and> (\<forall>i < 3. \<forall>k < fst (im_size resized) * snd (im_size resized).
               im_bands flat ! i ! k
                 = blend lib 255 (im_bands resized ! i ! k) (im_bands resized ! 3 ! k))"
proof -
  let ?ext = "str_lower (path_suffix (Path (resolve_output input_path output_path)))"
  let ?alpha = "\<lparr>im_mode = ''L'', im_size = im_size resized, im_bands = [im_bands resized ! 3]\<rparr>"
  let ?flat = "Image_paste lib (Image_new ''RGB'' (im_size resized) [255, 255, 255]) resized ?alpha"
  have m: "im_mode resized = ''RGBA''"
    using resize_step_mode [OF assms(5)] assms(4) by simp
  have f: "flatten_step lib resized ?ext = Inr ?flat"
    using flatten_step_rgba [OF m _ assms(8)] assms(6) by simp
  have c: "compress_image lib fs input_path output_path quality max_width max_height
             = save_step lib fs ?flat (resolve_output input_path output_path) ?ext quality"
    by (rule compress_image_reaches_save [OF assms(1,2,3,5) f])
  have s: "\<forall>i < 3. \<forall>k < fst (im_size resized) * snd (im_size resized).
               im_bands ?flat ! i ! k
                 = blend lib 255 (im_bands resized ! i ! k) (im_bands resized ! 3 ! k)"
    using paste_on_white_sample [OF assms(6,7)] by blast
  have "im_mode ?flat = ''RGB''" "im_size ?flat = im_size resized"
    by (simp_all add: paste_mode_size Image_new_def)
  with c s paste_on_white_bands [OF assms(6)] show ?thesis by blast
qed

theorem rgba_is_flattened_for_jpeg_witness:
  "compress_image demo_pil demo_fs ''rgba.png'' (Some ''o.jpg'') 85 None None
     = (Inr ''o.jpg'', fs_write demo_fs ''o.jpg'' (Some (File [2, 85, 2, 1, 3])))"
proof -
  have m: "im_mode demo_rgba = ''RGBA''" and l: "length (im_bands demo_rgba) = 4"
    and z: "im_size demo_rgba = (2, 1)"
    and b: "\<forall>b \<in> set (im_bands demo_rgba).
              length b = fst (im_size demo_rgba) * snd (im_size demo_rgba)"
    by (simp_all add: demo_rgba_def)
  have rs: "resize_step demo_pil demo_rgba None None = Inr demo_rgba"
    by (rule resize_step_no_bounds)
  have e: "str_lower (path_suffix (PurePath ''o.jpg'')) = ''.jpg''"
    by code_simp
  have x: "str_lower (path_suffix (Path (resolve_output ''rgba.png'' (Some ''o.jpg'')))) = ''.jpg''
         \<or> str_lower (path_suffix (Path (resolve_output ''rgba.png'' (Some ''o.jpg'')))) = ''.jpeg''"
    by (simp add: resolve_output_def e)
  from rgba_is_flattened_for_jpeg
         [OF demo_exists_rgba demo_ext_rgba demo_open_rgba m rs l b x, of 85]
  obtain flat where
    c: "compress_image demo_pil demo_fs ''rgba.png'' (Some ''o.jpg'') 85 None None
          = save_step demo_pil demo_fs flat (PStr ''o.jpg'') ''.jpg'' 85"
    and f: "im_mode flat = ''RGB''" "im_size flat = (2, 1)" "length (im_bands flat) = 3"
    by (auto simp: resolve_output_def e z)
  have "save_step demo_pil demo_fs flat (PStr ''o.jpg'') ''.jpg'' 85
          = (Inr ''o.jpg'', fs_write demo_fs ''o.jpg'' (Some (File [2, 85, 2, 1, 3])))"
    by (simp add: save_step_jpeg demo_pil_def demo_save_def f)
  with c show ?thesis by simp
qed

section \<open>The order of the two bounds\<close>

lemma compress_image_opened:
  assumes "os_path_exists fs input_path"
    and "str_lower (path_suffix (PurePath input_path)) \<in> set supported_formats"
    and "Image_open lib fs input_path = Inr opened"
  shows "compress_image lib fs input_path output_path quality max_width max_height =
           (case resize_step lib opened max_width max_height of
              Inl e \<Rightarrow> (Inl e, fs)
            | Inr resized \<Rightarrow>
                (case flatten_step lib resized
                        (str_lower (path_suffix (Path (resolve_output input_path output_path)))) of
                   Inl e \<Rightarrow> (Inl e, fs)
                 | Inr flat \<Rightarrow>
                     save_step lib fs flat (resolve_output input_path output_path)
                       (str_lower (path_suffix (Path (resolve_output input_path output_path))))
                       quality))"
  using assms by (simp add: compress_image_def Let_def split: sum.splits)

lemma resize_step_unfold:
  assumes "im_size img = (w, h)"
  shows "resize_step lib img max_width max_height =
           (if truthy max_width \<or> truthy max_height
            then bind_err (bind_err (width_bound max_width (int w, int h))
                             (height_bound max_height))
                   (\<lambda>nd. if nd \<noteq> (int w, int h) then Image_resize lib img nd else Inr img)
            else Inr img)"
  using assms by (simp add: resize_step_def new_dimensions_def)

lemma width_bound_applies:
  "mw \<noteq> 0 \<Longrightarrow> mw < ow \<Longrightarrow> scale_dim oh mw ow = Inr h1 \<Longrightarrow>
     width_bound (Some mw) (ow, oh) = Inr (mw, h1)"
  by (simp add: width_bound_def bind_err_def)

lemma width_bound_skips:
  "(\<forall>m. max_width = Some m \<longrightarrow> m = 0 \<or> ow \<le> m) \<Longrightarrow>
     width_bound max_width (ow, oh) = Inr (ow, oh)"
  by (auto simp: width_bound_def split: option.splits)

lemma height_bound_applies:
  "mh \<noteq> 0 \<Longrightarrow> mh < nh \<Longrightarrow> scale_dim nw mh nh = Inr w2 \<Longrightarrow>
     height_bound (Some mh) (nw, nh) = Inr (w2, mh)"
  by (simp add: height_bound_def bind_err_def)

lemma height_bound_skips:
  "(\<forall>m. max_height = Some m \<longrightarrow> m = 0 \<or> nh \<le> m) \<Longrightarrow>
     height_bound max_height (nw, nh) = Inr (nw, nh)"
  by (auto simp: height_bound_def split: option.splits)

lemma scale_dim_200_100_200: "scale_dim 200 100 200 = Inr 100"
  by code_simp

lemma scale_dim_100_50_100: "scale_dim 100 50 100 = Inr 50"
  by code_simp

lemma scale_dim_100_100_400: "scale_dim 100 100 400 = Inr 25"
  by code_simp

lemma demo_exists_big: "os_path_exists demo_fs ''big.png''"
  by (simp add: os_path_exists_def fs_lookup_def demo_fs_def demo_resolve_def)

lemma demo_ext_big: "str_lower (path_suffix (PurePath ''big.png'')) \<in> set supported_formats"
  by code_simp

lemma demo_open_big: "Image_open demo_pil demo_fs ''big.png'' = Inr demo_grey"
  by (simp add: Image_open_def demo_pil_def fs_lookup_def demo_fs_def demo_resolve_def
        demo_decode_def)

lemma demo_out_big:
  "str (resolve_output ''big.png'' None) = ''big_compressed.png''"
  "str_lower (path_suffix (Path (resolve_output ''big.png'' None))) = ''.png''"
  by code_simp+

lemma demo_resize_grey:
  "0 < a \<Longrightarrow> a < 2 ^ 31 \<Longrightarrow> 0 < b \<Longrightarrow> b < 2 ^ 31 \<Longrightarrow>
   Image_resize demo_pil demo_grey (a, b)
     = Inr \<lparr>im_mode = ''L'', im_size = (nat a, nat b),
            im_bands = [replicate (nat a * nat b) 0]\<rparr>"
  by (simp add: Image_resize_def demo_pil_def demo_grey_def)

lemma demo_save_grey:
  "save_step demo_pil demo_fs \<lparr>im_mode = ''L'', im_size = (a, b), im_bands = [bs]\<rparr>
       (resolve_output ''big.png'' None) ''.png'' q
     = (Inr ''big_compressed.png'',
        fs_write demo_fs ''big_compressed.png''
          (Some (File [1, 0, of_nat a, of_nat b, 1])))"
  by (simp add: save_step_png demo_out_big demo_pil_def demo_save_def)

lemma flatten_step_grey:
  "flatten_step lib \<lparr>im_mode = ''L'', im_size = sz, im_bands = bs\<rparr> e
     = Inr \<lparr>im_mode = ''L'', im_size = sz, im_bands = bs\<rparr>"
  by (simp add: flatten_step_def)

text \<open>
  C2: with both bounds given (and not zero, which counts as absent), \<^verbatim>\<open>compress_image\<close>
  resizes the opened image by \<^verbatim>\<open>resize_step\<close>, and there the width bound is applied to
  the original size first. The height bound is then tested against the height that the
  width bound left, not against the original height; when it applies, the new width is
  scaled from the width that the width bound left, and nothing restores the width bound
  afterwards. The four cases: neither bound exceeded, the image is kept; only the height
  bound exceeded, the width is scaled from the original width; the width bound exceeded
  and the adjusted height within the height bound, the size is the width bound and the
  adjusted height; the width bound exceeded and the adjusted height above the height
  bound, the size is the width scaled a second time and the height bound. A 200 by 200
  image with \<^verbatim>\<open>max_width=100\<close> is resized to exactly 100 by 100.
\<close>

theorem width_bound_first_then_height_bound:
  assumes "im_size img = (w, h)" and "mw \<noteq> 0" and "mh \<noteq> 0"
  shows
    "(os_path_exists fs input_path
        \<and> str_lower (path_suffix (PurePath input_path)) \<in> set supported_formats
        \<and> Image_open lib fs input_path = Inr img \<longrightarrow>
      compress_image lib fs input_path output_path quality (Some mw) (Some mh) =
        (case resize_step lib img (Some mw) (Some mh) of
           Inl e \<Rightarrow> (Inl e, fs)
         | Inr resized \<Rightarrow>
             (case flatten_step lib resized
                     (str_lower (path_suffix (Path (resolve_output input_path output_path)))) of
                Inl e \<Rightarrow> (Inl e, fs)
              | Inr flat \<Rightarrow>
                  save_step lib fs flat (resolve_output input_path output_path)
                    (str_lower (path_suffix (Path (resolve_output input_path output_path))))
                    quality)))
     \<and> (int w \<le> mw \<and> int h \<le> mh \<longrightarrow>
          resize_step lib img (Some mw) (Some mh) = Inr img)
     \<and> (int w \<le> mw \<and> mh < int h \<and> scale_dim (int w) mh (int h) = Inr w2 \<longrightarrow>
          resize_step lib img (Some mw) (Some mh) = Image_resize lib img (w2, mh))
     \<and> (mw < int w \<and> scale_dim (int h) mw (int w) = Inr h1 \<and> h1 \<le> mh \<longrightarrow>
          resize_step lib img (Some mw) (Some mh) = Image_resize lib img (mw, h1))
     \<and> (mw < int w \<and> scale_dim (int h) mw (int w) = Inr h1 \<and> mh < h1
          \<and> scale_dim mw mh h1 = Inr w3 \<longrightarrow>
          resize_step lib img (Some mw) (Some mh)
            = (if (w3, mh) = (int w, int h) then Inr img
               else Image_resize lib img (w3, mh)))
     \<and> (w = 200 \<and> h = 200 \<longrightarrow>
          resize_step lib img (Some 100) None
            = Inr (img\<lparr>im_size := (100, 100), im_bands := resample lib img (100, 100)\<rparr>))"
proof (intro conjI impI)
  assume "os_path_exists fs input_path
        \<and> str_lower (path_suffix (PurePath input_path)) \<in> set supported_formats
        \<and> Image_open lib fs input_path = Inr img"
  then show "compress_image lib fs input_path output_path quality (Some mw) (Some mh) =
        (case resize_step lib img (Some mw) (Some mh) of
           Inl e \<Rightarrow> (Inl e, fs)
         | Inr resized \<Rightarrow>
             (case flatten_step lib resized
                     (str_lower (path_suffix (Path (resolve_output input_path output_path)))) of
                Inl e \<Rightarrow> (Inl e, fs)
              | Inr flat \<Rightarrow>
                  save_step lib fs flat (resolve_output input_path output_path)
                    (str_lower (path_suffix (Path (resolve_output input_path output_path))))
                    quality))"
    by (intro compress_image_opened) simp_all
next
  assume a: "int w \<le> mw \<and> int h \<le> mh"
  then have "width_bound (Some mw) (int w, int h) = Inr (int w, int h)"
    by (intro width_bound_skips) simp
  moreover from a have "height_bound (Some mh) (int w, int h) = Inr (int w, int h)"
    by (intro height_bound_skips) simp
  ultimately show "resize_step lib img (Some mw) (Some mh) = Inr img"
    by (simp add: resize_step_unfold [OF assms(1)] bind_err_def)
next
  assume a: "int w \<le> mw \<and> mh < int h \<and> scale_dim (int w) mh (int h) = Inr w2"
  then have "width_bound (Some mw) (int w, int h) = Inr (int w, int h)"
    by (intro width_bound_skips) simp
  moreover from a assms(3) have "height_bound (Some mh) (int w, int h) = Inr (w2, mh)"
    by (intro height_bound_applies) simp_all
  ultimately show "resize_step lib img (Some mw) (Some mh) = Image_resize lib img (w2, mh)"
    using a assms(2) by (simp add: resize_step_unfold [OF assms(1)] bind_err_def truthy_def)
next
  assume a: "mw < int w \<and> scale_dim (int h) mw (int w) = Inr h1 \<and> h1 \<le> mh"
  with assms(2) have "width_bound (Some mw) (int w, int h) = Inr (mw, h1)"
    by (intro width_bound_applies) simp_all
  moreover from a have "height_bound (Some mh) (mw, h1) = Inr (mw, h1)"
    by (intro height_bound_skips) simp
  ultimately show "resize_step lib img (Some mw) (Some mh) = Image_resize lib img (mw, h1)"
    using a assms(2) by (simp add: resize_step_unfold [OF assms(1)] bind_err_def truthy_def)
next
  assume a: "mw < int w \<and> scale_dim (int h) mw (int w) = Inr h1 \<and> mh < h1
          \<and> scale_dim mw mh h1 = Inr w3"
  with assms(2) have "width_bound (Some mw) (int w, int h) = Inr (mw, h1)"
    by (intro width_bound_applies) simp_all
  moreover from a assms(3) have "height_bound (Some mh) (mw, h1) = Inr (w3, mh)"
    by (intro height_bound_applies) simp_all
  ultimately show "resize_step lib img (Some mw) (Some mh)
            = (if (w3, mh) = (int w, int h) then Inr img
               else Image_resize lib img (w3, mh))"
    using assms(2) by (simp add: resize_step_unfold [OF assms(1)] bind_err_def truthy_def)
next
  assume s: "w = 200 \<and> h = 200"
  have "width_bound (Some 100) (200, 200) = Inr (100, 100)"
    by (intro width_bound_applies scale_dim_200_100_200) simp_all
  moreover have "height_bound None (100, 100) = Inr (100, 100)"
    by (intro height_bound_skips) simp
  ultimately show "resize_step lib img (Some 100) None
        = Inr (img\<lparr>im_size := (100, 100), im_bands := resample lib img (100, 100)\<rparr>)"
    using s by (simp add: resize_step_unfold [OF assms(1)] bind_err_def truthy_def
                  Image_resize_def)
qed

theorem width_bound_first_then_height_bound_witness:
  "resize_step demo_pil demo_grey (Some 300) (Some 300) = Inr demo_grey
   \<and> resize_step demo_pil demo_tall (Some 200) (Some 100)
       = Image_resize demo_pil demo_tall (25, 100)
   \<and> resize_step demo_pil demo_grey (Some 300) (Some 100)
       = Image_resize demo_pil demo_grey (100, 100)
   \<and> resize_step demo_pil demo_grey (Some 100) (Some 150)
       = Image_resize demo_pil demo_grey (100, 100)
   \<and> resize_step demo_pil demo_grey (Some 100) (Some 50)
       = Image_resize demo_pil demo_grey (50, 50)
   \<and> compress_image demo_pil demo_fs ''big.png'' None 85 (Some 100) (Some 50)
       = (Inr ''big_compressed.png'',
          fs_write demo_fs ''big_compressed.png'' (Some (File [1, 0, 50, 50, 1])))
   \<and> compress_image demo_pil demo_fs ''big.png'' None 85 (Some 300) (Some 100)
       = (Inr ''big_compressed.png'',
          fs_write demo_fs ''big_compressed.png'' (Some (File [1, 0, 100, 100, 1])))
   \<and> resize_step demo_pil demo_grey (Some 100) None
       = Image_resize demo_pil demo_grey (100, 100)"
proof -
  have g: "im_size demo_grey = (200, 200)" by (simp add: demo_grey_def)
  have t: "im_size demo_tall = (100, 400)" by (simp add: demo_tall_def)
  have reach: "os_path_exists demo_fs ''big.png''
        \<and> str_lower (path_suffix (PurePath ''big.png'')) \<in> set supported_formats
        \<and> Image_open demo_pil demo_fs ''big.png'' = Inr demo_grey"
    using demo_exists_big demo_ext_big demo_open_big by simp
  have c1: "resize_step demo_pil demo_grey (Some 300) (Some 300) = Inr demo_grey"
    using width_bound_first_then_height_bound
            [OF g, where mw = 300 and mh = 300 and lib = demo_pil]
    by simp
  have c2: "resize_step demo_pil demo_tall (Some 200) (Some 100)
              = Image_resize demo_pil demo_tall (25, 100)"
    using width_bound_first_then_height_bound
            [OF t, where mw = 200 and mh = 100 and lib = demo_pil and ?w2.0 = 25]
      scale_dim_100_100_400
    by simp
  have c2': "resize_step demo_pil demo_grey (Some 300) (Some 100)
              = Image_resize demo_pil demo_grey (100, 100)"
    using width_bound_first_then_height_bound
            [OF g, where mw = 300 and mh = 100 and lib = demo_pil and ?w2.0 = 100]
      scale_dim_200_100_200
    by simp
  have c3: "resize_step demo_pil demo_grey (Some 100) (Some 150)
              = Image_resize demo_pil demo_grey (100, 100)"
    using width_bound_first_then_height_bound
            [OF g, where mw = 100 and mh = 150 and lib = demo_pil and ?h1.0 = 100]
      scale_dim_200_100_200
    by simp
  have c4: "resize_step demo_pil demo_grey (Some 100) (Some 50)
              = Image_resize demo_pil demo_grey (50, 50)"
    using width_bound_first_then_height_bound
            [OF g, where mw = 100 and mh = 50 and lib = demo_pil and ?h1.0 = 100
               and ?w3.0 = 50]
      scale_dim_200_100_200 scale_dim_100_50_100
    by simp
  have k1: "compress_image demo_pil demo_fs ''big.png'' None 85 (Some 100) (Some 50)
       = (Inr ''big_compressed.png'',
          fs_write demo_fs ''big_compressed.png'' (Some (File [1, 0, 50, 50, 1])))"
    using width_bound_first_then_height_bound
            [OF g, where mw = 100 and mh = 50 and lib = demo_pil and fs = demo_fs
               and input_path = "''big.png''" and output_path = None and quality = 85]
      reach
    by (simp add: c4 demo_resize_grey flatten_step_grey demo_out_big(2) demo_save_grey)
  have k2: "compress_image demo_pil demo_fs ''big.png'' None 85 (Some 300) (Some 100)
       = (Inr ''big_compressed.png'',
          fs_write demo_fs ''big_compressed.png'' (Some (File [1, 0, 100, 100, 1])))"
    using width_bound_first_then_height_bound
            [OF g, where mw = 300 and mh = 100 and lib = demo_pil and fs = demo_fs
               and input_path = "''big.png''" and output_path = None and quality = 85]
      reach
    by (simp add: c2' demo_resize_grey flatten_step_grey demo_out_big(2) demo_save_grey)
  have c5: "resize_step demo_pil demo_grey (Some 100) None
              = Image_resize demo_pil demo_grey (100, 100)"
    using width_bound_first_then_height_bound
            [OF g, where mw = 1 and mh = 1 and lib = demo_pil]
    by (simp add: Image_resize_def)
  from c1 c2 c2' c3 c4 k1 k2 c5 show ?thesis by simp
qed

section \<open>The interactive script\<close>

lemma stdout_print: "stdout (print w line) = stdout w @ [line]"
  by (simp add: print_def)

lemma image_compressor_last_line:
  "\<exists>line. stdout (image_compressor lib w file_path quality) = stdout w @ [line]
          \<and> (line = ''Unsupported image format!''
              \<or> (\<exists>m. line = ''Error compressing image: '' @ m)
              \<or> (\<exists>m. line = ''Image compressed and saved as: '' @ m))"
  by (auto simp: image_compressor_def print_def Let_def
        split: sum.splits prod.splits option.splits)

text \<open>
  C9: if the file dialog returns no selection, or the quality dialog returns no value, the
  script leaves every file as it was and prints only its prompt and the cancellation
  message; its final state is not that of any call of \<^verbatim>\<open>image_compressor\<close>, which
  always prints a line of its own.
\<close>

theorem cancelling_writes_no_file:
  assumes "file_path = [] \<or> quality_answer = None"
  shows "files (script_main lib w file_path quality_answer) = files w
       \<and> stdout (script_main lib w file_path quality_answer)
           = stdout w @ [''Select an image file to compress'',
                         if file_path = [] then ''No file selected.''
                         else ''Compression cancelled by user.'']
       \<and> (\<forall>fp q. script_main lib w file_path quality_answer
                    \<noteq> image_compressor lib (print w ''Select an image file to compress'') fp q)"
proof -
  let ?w1 = "print w ''Select an image file to compress''"
  let ?msg = "if file_path = [] then ''No file selected.''
              else ''Compression cancelled by user.''"
  have m: "script_main lib w file_path quality_answer = print ?w1 ?msg"
    using assms by (auto simp: script_main_def Let_def)
  have "script_main lib w file_path quality_answer \<noteq> image_compressor lib ?w1 fp q" for fp q
  proof
    assume "script_main lib w file_path quality_answer = image_compressor lib ?w1 fp q"
    with m have "image_compressor lib ?w1 fp q = print ?w1 ?msg"
      by simp
    then have "stdout (image_compressor lib ?w1 fp q) = stdout (print ?w1 ?msg)"
      by (rule arg_cong)
    then have e: "stdout (image_compressor lib ?w1 fp q) = stdout ?w1 @ [?msg]"
      by (simp only: stdout_print)
    from image_compressor_last_line [of lib ?w1 fp q] obtain line where
      l: "stdout (image_compressor lib ?w1 fp q) = stdout ?w1 @ [line]"
      and c: "line = ''Unsupported image format!''
              \<or> (\<exists>m. line = ''Error compressing image: '' @ m)
              \<or> (\<exists>m. line = ''Image compressed and saved as: '' @ m)"
      by blast
    from e l have "line = ?msg" by simp
    with c show False by (auto split: if_splits)
  qed
  with m show ?thesis by (simp add: print_def)
qed

theorem cancelling_writes_no_file_witness:
  "files (script_main demo_pil \<lparr>files = demo_fs, stdout = []\<rparr> [] (Some 50)) = demo_fs
   \<and> stdout (script_main demo_pil \<lparr>files = demo_fs, stdout = []\<rparr> [] (Some 50))
       = [''Select an image file to compress'', ''No file selected.'']
   \<and> files (script_main demo_pil \<lparr>files = demo_fs, stdout = []\<rparr> ''a.png'' None) = demo_fs
   \<and> stdout (script_main demo_pil \<lparr>files = demo_fs, stdout = []\<rparr> ''a.png'' None)
       = [''Select an image file to compress'', ''Compression cancelled by user.'']"
proof -
  have a: "([] :: string) = [] \<or> Some (50 :: int) = None" by simp
  have b: "''a.png'' = [] \<or> (None :: int option) = None" by simp
  from cancelling_writes_no_file [OF a, of demo_pil "\<lparr>files = demo_fs, stdout = []\<rparr>"]
    cancelling_writes_no_file [OF b, of demo_pil "\<lparr>files = demo_fs, stdout = []\<rparr>"]
  show ?thesis by simp
qed

section \<open>Rounding to a double\<close>




lemma two_powi_Suc: "(2 :: rat) powi (e + 1) = 2 * 2 powi e"
  by (simp add: power_int_add)














section \<open>The resize arithmetic\<close>












text \<open>The statement leaves the case of an integer quotient aside: there the
  double-precision product can fall just under the quotient, as for 49 times 1 / 49.\<close>

lemma scale_dim_49_1_49: "scale_dim 49 1 49 = Inr 0"
  by code_simp

end
